theory Spec2Isabelle
  imports Complex_Main
begin

section \<open>The command-state engine of agent.py\<close>

text \<open>
  The module keeps three globals: the list \<open>json_commands\<close>, the list
  \<open>python_commands\<close> and the dict \<open>arm_state\<close>. The three tool functions
  \<open>move_cartesian\<close>, \<open>rotate_joint\<close> and \<open>control_gripper\<close> append to the lists
  (and, for moves, update the dict); \<open>write_json_file\<close> and \<open>write_python_file\<close>
  write the lists out. Mutation is modelled by passing the globals, together with the
  file system, through every function.

  \<^item> Strings. A Python \<open>str\<close> is a \<open>string\<close>, one \<open>char\<close> per code point; the model
    covers the code points below 256.
  \<^item> Numbers. The arguments are annotated \<open>float\<close>. The carrier of numbers is a type
    variable \<open>'n\<close> with the language's \<open>+\<close> and the literal \<open>0.0\<close> as \<open>0\<close>; no law of
    arithmetic is assumed of it, so every theorem below that is stated for \<open>'n\<close> holds
    of IEEE doubles (rounding, infinities and NaN included) as of the reals. The
    library functions on numbers that the module calls are parameters of the model:
    \<open>rad\<close> for \<open>math.radians\<close>, \<open>fmt\<close> for the text an f-string puts for a number, and
    \<open>floatstr\<close> for the text \<open>json.dump\<close> puts for a number. They are total on floats
    in Python, as the parameters are here. Python does not enforce the annotation;
    what the functions do with an int is the subject of the section on Python numbers.
  \<^item> Errors. Subscripting a dict with an absent key raises \<open>KeyError\<close>; with float
    arguments this is the only operation of the three tool functions that can raise,
    and it is a branch of the model. With an int argument the conversion of the int to
    a float can raise \<open>OverflowError\<close>, a branch of the functions on Python numbers.
\<close>

subsection \<open>Library functions\<close>

datatype py_error = KeyError string | OverflowError

text \<open>\<open>d[k]\<close> and \<open>d[k] += v\<close> on a dict.\<close>

definition getitem :: "(string \<rightharpoonup> 'v) \<Rightarrow> string \<Rightarrow> py_error + 'v" where
  "getitem d k = (case d k of None \<Rightarrow> Inl (KeyError k) | Some v \<Rightarrow> Inr v)"

definition iadd_item :: "(string \<rightharpoonup> 'n::plus) \<Rightarrow> string \<Rightarrow> 'n \<Rightarrow> py_error + (string \<rightharpoonup> 'n)" where
  "iadd_item d k v = (case getitem d k of Inl e \<Rightarrow> Inl e | Inr old \<Rightarrow> Inr (d(k \<mapsto> old + v)))"

text \<open>
  \<open>str.lower\<close>: below code point 256 the cased capitals are A to Z and the Latin-1
  capitals 0xC0 to 0xDE without the multiplication sign 0xD7; each lies 32 below its
  small letter.
\<close>

definition lower_char :: "char \<Rightarrow> char" where
  "lower_char c =
     (let n = (of_char c :: nat)
      in if (65 \<le> n \<and> n \<le> 90) \<or> (192 \<le> n \<and> n \<le> 222 \<and> n \<noteq> 215)
         then char_of (n + 32) else c)"

definition lower :: "string \<Rightarrow> string" where
  "lower s = map lower_char s"

text \<open>
  \<open>str.strip\<close> with no argument removes the leading and the trailing whitespace:
  tab to carriage return, the separators 0x1C to 0x1F, the space, and 0x85 and 0xA0.
\<close>

definition isspace :: "char \<Rightarrow> bool" where
  "isspace c =
     (let n = (of_char c :: nat)
      in (9 \<le> n \<and> n \<le> 13) \<or> (28 \<le> n \<and> n \<le> 32) \<or> n = 133 \<or> n = 160)"

definition strip :: "string \<Rightarrow> string" where
  "strip s = rev (dropWhile isspace (rev (dropWhile isspace s)))"

definition nl :: string where
  "nl = [CHR 0x0A]"

definition squote :: string where
  "squote = [CHR 0x27]"

definition dquote :: string where
  "dquote = [CHR 0x22]"

definition backslash :: string where
  "backslash = [CHR 0x5C]"

text \<open>
  \<open>json.dump(obj, f, indent=2)\<close> for a list of flat dicts. Strings go through the
  ASCII-only encoder (the default \<open>ensure_ascii=True\<close>): the quote and the backslash get
  a backslash, the five control characters with a short form get it, every other
  character outside space to tilde becomes a four-digit \<open>\u\<close> escape.
\<close>

definition hex_digit :: "nat \<Rightarrow> char" where
  "hex_digit n = ''0123456789abcdef'' ! (n mod 16)"

definition escape_char :: "char \<Rightarrow> string" where
  "escape_char c =
     (let n = (of_char c :: nat)
      in if n = 0x5C then backslash @ backslash
         else if n = 0x22 then backslash @ dquote
         else if n = 0x08 then backslash @ ''b''
         else if n = 0x0C then backslash @ ''f''
         else if n = 0x0A then backslash @ ''n''
         else if n = 0x0D then backslash @ ''r''
         else if n = 0x09 then backslash @ ''t''
         else if 0x20 \<le> n \<and> n \<le> 0x7E then [c]
         else backslash @ ''u00'' @ [hex_digit (n div 16), hex_digit n])"

definition encode_basestring_ascii :: "string \<Rightarrow> string" where
  "encode_basestring_ascii s = dquote @ concat (map escape_char s) @ dquote"

datatype 'n jvalue = JStr string | JNum 'n | JInt int

type_synonym 'n json_command = "(string \<times> 'n jvalue) list"

fun join :: "string \<Rightarrow> string list \<Rightarrow> string" where
  "join sep [] = []"
| "join sep [a] = a"
| "join sep (a # b # bs) = a @ sep @ join sep (b # bs)"

text \<open>The text of an int: its decimal digits, after a minus sign if it is negative.\<close>

definition digit_char :: "nat \<Rightarrow> char" where
  "digit_char n = ''0123456789'' ! (n mod 10)"

function show_nat :: "nat \<Rightarrow> string" where
  "show_nat n = (if n < 10 then [digit_char n] else show_nat (n div 10) @ [digit_char n])"
  by pat_completeness auto
termination
  by (relation "measure (\<lambda>n. n)") auto

definition show_int :: "int \<Rightarrow> string" where
  "show_int i = (if i < 0 then ''-'' @ show_nat (nat (- i)) else show_nat (nat i))"

fun dump_value :: "('n \<Rightarrow> string) \<Rightarrow> 'n jvalue \<Rightarrow> string" where
  "dump_value floatstr (JStr s) = encode_basestring_ascii s"
| "dump_value floatstr (JNum v) = floatstr v"
| "dump_value floatstr (JInt i) = show_int i"

definition dump_dict :: "('n \<Rightarrow> string) \<Rightarrow> 'n json_command \<Rightarrow> string" where
  "dump_dict floatstr d =
     (if d = [] then ''{}''
      else ''{'' @ nl @ ''    ''
           @ join ('','' @ nl @ ''    '')
               (map (\<lambda>(k, v). encode_basestring_ascii k @ '': '' @ dump_value floatstr v) d)
           @ nl @ ''  '' @ ''}'')"

definition json_dump :: "('n \<Rightarrow> string) \<Rightarrow> 'n json_command list \<Rightarrow> string" where
  "json_dump floatstr cmds =
     (if cmds = [] then ''[]''
      else ''['' @ nl @ ''  ''
           @ join ('','' @ nl @ ''  '') (map (dump_dict floatstr) cmds)
           @ nl @ '']'')"

subsection \<open>The globals and the tool functions\<close>

record 'n state =
  json_commands :: "'n json_command list"
  python_commands :: "string list"
  arm_state :: "string \<rightharpoonup> 'n"
  files :: "string \<rightharpoonup> string"

text \<open>
  The globals as the module initialises them, over a file system \<open>fs\<close>.

  \<open>move_cartesian\<close> reads each coordinate after the three updates, once for the
  record and once for the line; nothing changes the dict between the two reads, so the
  model reads once. The defaults \<open>0.0\<close> of its three parameters are written out by the
  caller. With a float argument \<open>rotate_joint\<close> has no operation that can raise, and
  \<open>control_gripper\<close> has none at all; they return the new globals directly.
\<close>

definition init :: "(string \<rightharpoonup> string) \<Rightarrow> ('n::zero) state" where
  "init fs =
     \<lparr>json_commands = [], python_commands = [],
      arm_state = [''x'' \<mapsto> 0, ''y'' \<mapsto> 0, ''z'' \<mapsto> 0],
      files = fs\<rparr>"

definition move_cartesian ::
  "('n \<Rightarrow> string) \<Rightarrow> 'n \<Rightarrow> 'n \<Rightarrow> 'n \<Rightarrow> ('n::plus) state \<Rightarrow> py_error + 'n state" where
  "move_cartesian fmt x y z s =
     (case iadd_item (arm_state s) ''x'' x of Inl e \<Rightarrow> Inl e | Inr a1 \<Rightarrow>
     (case iadd_item a1 ''y'' y of Inl e \<Rightarrow> Inl e | Inr a2 \<Rightarrow>
     (case iadd_item a2 ''z'' z of Inl e \<Rightarrow> Inl e | Inr a3 \<Rightarrow>
     (case getitem a3 ''x'' of Inl e \<Rightarrow> Inl e | Inr vx \<Rightarrow>
     (case getitem a3 ''y'' of Inl e \<Rightarrow> Inl e | Inr vy \<Rightarrow>
     (case getitem a3 ''z'' of Inl e \<Rightarrow> Inl e | Inr vz \<Rightarrow>
        Inr (s\<lparr>arm_state := a3,
               json_commands := json_commands s @
                 [[(''type'', JStr ''cartesian_move''),
                   (''x'', JNum vx), (''y'', JNum vy), (''z'', JNum vz)]],
               python_commands := python_commands s @
                 [''bot.arm.set_ee_cartesian_trajectory(x='' @ fmt vx
                  @ '', y='' @ fmt vy @ '', z='' @ fmt vz @ '')'']\<rparr>)))))))"

definition rotate_joint ::
  "('n \<Rightarrow> 'n) \<Rightarrow> ('n \<Rightarrow> string) \<Rightarrow> string \<Rightarrow> 'n \<Rightarrow> 'n state \<Rightarrow> 'n state" where
  "rotate_joint rad fmt joint_name degrees s =
     (let radians = rad degrees
      in s\<lparr>json_commands := json_commands s @
              [[(''type'', JStr ''rotate_joint''),
                (''joint_name'', JStr joint_name), (''degrees'', JNum degrees)]],
            python_commands := python_commands s @
              [''bot.arm.set_single_joint_position(joint_name='' @ squote @ joint_name
               @ squote @ '', position='' @ fmt radians @ '')'']\<rparr>)"

definition control_gripper :: "string \<Rightarrow> 'n state \<Rightarrow> 'n state" where
  "control_gripper action s =
     s\<lparr>json_commands := json_commands s @
          [[(''type'', JStr ''gripper''), (''action'', JStr (lower action))]],
       python_commands := python_commands s @ [''bot.gripper.'' @ action @ ''()'']\<rparr>"

subsection \<open>Writing the two files\<close>

text \<open>
  \<open>open(filename, "w")\<close> truncates, so the file holds what is written and nothing of
  its old content. The content of a file is the text written to it, with the newline
  as the one character \<open>\n\<close>; the encoding of the text and a destination that cannot
  be opened are outside the model. The file name is an argument; the two defaults of
  the module are \<open>default_json_filename\<close> and \<open>default_python_filename\<close>.
\<close>

definition write_json_file :: "('n \<Rightarrow> string) \<Rightarrow> string \<Rightarrow> 'n state \<Rightarrow> 'n state" where
  "write_json_file floatstr filename s =
     s\<lparr>files := (files s)(filename \<mapsto> json_dump floatstr (json_commands s))\<rparr>"

definition preamble :: string where
  "preamble =
     ''from interbotix_xs_modules.arm import InterbotixManipulatorXS'' @ nl @ nl
     @ ''bot = InterbotixManipulatorXS('' @ nl
     @ ''    robot_model='' @ squote @ ''vx300'' @ squote @ '','' @ nl
     @ ''    group_name='' @ squote @ ''arm'' @ squote @ '','' @ nl
     @ ''    gripper_name='' @ squote @ ''gripper'' @ squote @ nl
     @ '')'' @ nl @ nl"

definition write_python_file :: "string \<Rightarrow> 'n state \<Rightarrow> 'n state" where
  "write_python_file filename s =
     s\<lparr>files := (files s)(filename \<mapsto>
          preamble @ concat (map (\<lambda>command. strip command @ nl) (python_commands s)))\<rparr>"

definition default_json_filename :: string where
  "default_json_filename = ''generated_json_commands.json''"

definition default_python_filename :: string where
  "default_python_filename = ''generated_python_commands.py''"

subsection \<open>Sessions: the calls the agent makes\<close>

text \<open>
  The agent invokes the three tools one after the other. A session is the list of its
  calls; an exception ends it.
\<close>

datatype 'n call = Move 'n 'n 'n | Rotate string 'n | Gripper string

fun dispatch ::
  "('n \<Rightarrow> 'n) \<Rightarrow> ('n \<Rightarrow> string) \<Rightarrow> 'n call \<Rightarrow> ('n::plus) state \<Rightarrow> py_error + 'n state" where
  "dispatch rad fmt (Move x y z) s = move_cartesian fmt x y z s"
| "dispatch rad fmt (Rotate joint_name degrees) s = Inr (rotate_joint rad fmt joint_name degrees s)"
| "dispatch rad fmt (Gripper action) s = Inr (control_gripper action s)"

fun run ::
  "('n \<Rightarrow> 'n) \<Rightarrow> ('n \<Rightarrow> string) \<Rightarrow> 'n call list \<Rightarrow> ('n::plus) state \<Rightarrow> py_error + 'n state" where
  "run rad fmt [] s = Inr s"
| "run rad fmt (c # cs) s =
     (case dispatch rad fmt c s of Inl e \<Rightarrow> Inl e | Inr s' \<Rightarrow> run rad fmt cs s')"

text \<open>\<open>math.radians\<close> over the reals.\<close>

definition math_radians :: "real \<Rightarrow> real" where
  "math_radians d = d * pi / 180"

subsection \<open>The tool functions on any Python number\<close>

text \<open>
  Python does not enforce the annotation \<open>float\<close>. The agent calls a tool with the
  numbers that the JSON of the call holds, and a literal without fraction or exponent
  arrives as an \<open>int\<close> of any size. The functions above are the bodies at the annotated
  type; the functions of this section are the same bodies at a \<open>number\<close>, which is a
  float or an int.

  \<open>arm_state[k] += v\<close> with an int \<open>v\<close> and \<open>math.radians(degrees)\<close> with an int
  \<open>degrees\<close> first convert the int to a float, and raise \<open>OverflowError\<close> when it is too
  large for one. The conversion is the parameter \<open>to_float\<close>, with \<open>None\<close> where it
  raises. The record of a rotation holds the degrees as the object that was passed, so
  an int stays an int there.

  A call that raises leaves the globals as they are at that point: after \<open>x\<close> has been
  updated, a failure at \<open>y\<close> leaves the new \<open>x\<close> in \<open>arm_state\<close>. The left alternative of
  a result is the error together with those globals.
\<close>

datatype 'n number = PyFloat 'n | PyInt int

definition as_float :: "(int \<Rightarrow> 'n option) \<Rightarrow> 'n number \<Rightarrow> py_error + 'n" where
  "as_float to_float v =
     (case v of
        PyFloat f \<Rightarrow> Inr f
      | PyInt i \<Rightarrow> (case to_float i of None \<Rightarrow> Inl OverflowError | Some f \<Rightarrow> Inr f))"

definition iadd_item_num ::
  "(int \<Rightarrow> 'n option) \<Rightarrow> (string \<rightharpoonup> 'n::plus) \<Rightarrow> string \<Rightarrow> 'n number
     \<Rightarrow> py_error + (string \<rightharpoonup> 'n)" where
  "iadd_item_num to_float d k v =
     (case getitem d k of Inl e \<Rightarrow> Inl e | Inr old \<Rightarrow>
     (case as_float to_float v of Inl e \<Rightarrow> Inl e | Inr f \<Rightarrow> Inr (d(k \<mapsto> old + f))))"

definition json_number :: "'n number \<Rightarrow> 'n jvalue" where
  "json_number v = (case v of PyFloat f \<Rightarrow> JNum f | PyInt i \<Rightarrow> JInt i)"

definition move_cartesian_num ::
  "(int \<Rightarrow> 'n option) \<Rightarrow> ('n \<Rightarrow> string) \<Rightarrow> 'n number \<Rightarrow> 'n number \<Rightarrow> 'n number
     \<Rightarrow> ('n::plus) state \<Rightarrow> (py_error \<times> 'n state) + 'n state" where
  "move_cartesian_num to_float fmt x y z s =
     (case iadd_item_num to_float (arm_state s) ''x'' x of Inl e \<Rightarrow> Inl (e, s) | Inr a1 \<Rightarrow>
     (case iadd_item_num to_float a1 ''y'' y of
        Inl e \<Rightarrow> Inl (e, s\<lparr>arm_state := a1\<rparr>) | Inr a2 \<Rightarrow>
     (case iadd_item_num to_float a2 ''z'' z of
        Inl e \<Rightarrow> Inl (e, s\<lparr>arm_state := a2\<rparr>) | Inr a3 \<Rightarrow>
     (case getitem a3 ''x'' of Inl e \<Rightarrow> Inl (e, s\<lparr>arm_state := a3\<rparr>) | Inr vx \<Rightarrow>
     (case getitem a3 ''y'' of Inl e \<Rightarrow> Inl (e, s\<lparr>arm_state := a3\<rparr>) | Inr vy \<Rightarrow>
     (case getitem a3 ''z'' of Inl e \<Rightarrow> Inl (e, s\<lparr>arm_state := a3\<rparr>) | Inr vz \<Rightarrow>
        Inr (s\<lparr>arm_state := a3,
               json_commands := json_commands s @
                 [[(''type'', JStr ''cartesian_move''),
                   (''x'', JNum vx), (''y'', JNum vy), (''z'', JNum vz)]],
               python_commands := python_commands s @
                 [''bot.arm.set_ee_cartesian_trajectory(x='' @ fmt vx
                  @ '', y='' @ fmt vy @ '', z='' @ fmt vz @ '')'']\<rparr>)))))))"

definition rotate_joint_num ::
  "(int \<Rightarrow> 'n option) \<Rightarrow> ('n \<Rightarrow> 'n) \<Rightarrow> ('n \<Rightarrow> string) \<Rightarrow> string \<Rightarrow> 'n number
     \<Rightarrow> 'n state \<Rightarrow> (py_error \<times> 'n state) + 'n state" where
  "rotate_joint_num to_float rad fmt joint_name degrees s =
     (case as_float to_float degrees of Inl e \<Rightarrow> Inl (e, s) | Inr d \<Rightarrow>
        (let radians = rad d
         in Inr (s\<lparr>json_commands := json_commands s @
                   [[(''type'', JStr ''rotate_joint''),
                     (''joint_name'', JStr joint_name), (''degrees'', json_number degrees)]],
                 python_commands := python_commands s @
                   [''bot.arm.set_single_joint_position(joint_name='' @ squote @ joint_name
                    @ squote @ '', position='' @ fmt radians @ '')'']\<rparr>)))"

datatype 'n call_num =
  MoveNum "'n number" "'n number" "'n number" | RotateNum string "'n number" | GripperNum string

fun dispatch_num ::
  "(int \<Rightarrow> 'n option) \<Rightarrow> ('n \<Rightarrow> 'n) \<Rightarrow> ('n \<Rightarrow> string) \<Rightarrow> 'n call_num \<Rightarrow> ('n::plus) state
     \<Rightarrow> (py_error \<times> 'n state) + 'n state" where
  "dispatch_num to_float rad fmt (MoveNum x y z) s = move_cartesian_num to_float fmt x y z s"
| "dispatch_num to_float rad fmt (RotateNum joint_name degrees) s =
     rotate_joint_num to_float rad fmt joint_name degrees s"
| "dispatch_num to_float rad fmt (GripperNum action) s = Inr (control_gripper action s)"

fun run_num ::
  "(int \<Rightarrow> 'n option) \<Rightarrow> ('n \<Rightarrow> 'n) \<Rightarrow> ('n \<Rightarrow> string) \<Rightarrow> 'n call_num list \<Rightarrow> ('n::plus) state
     \<Rightarrow> (py_error \<times> 'n state) + 'n state" where
  "run_num to_float rad fmt [] s = Inr s"
| "run_num to_float rad fmt (c # cs) s =
     (case dispatch_num to_float rad fmt c s of
        Inl r \<Rightarrow> Inl r | Inr s' \<Rightarrow> run_num to_float rad fmt cs s')"

text \<open>A call with float arguments, as a call with Python numbers.\<close>

fun float_call :: "'n call \<Rightarrow> 'n call_num" where
  "float_call (Move x y z) = MoveNum (PyFloat x) (PyFloat y) (PyFloat z)"
| "float_call (Rotate joint_name degrees) = RotateNum joint_name (PyFloat degrees)"
| "float_call (Gripper action) = GripperNum action"

text \<open>
  \<open>float(i)\<close> over the reals: an int converts when its magnitude is below
  \<open>2^1024 - 2^970\<close>, the least that rounds to \<open>2^1024\<close>, which no double holds. The
  rounding of the ints that convert is not modelled.
\<close>

definition int_to_float :: "int \<Rightarrow> real option" where
  "int_to_float i = (if \<bar>i\<bar> < 2 ^ 1024 - 2 ^ 970 then Some (real_of_int i) else None)"

subsection \<open>Notions used in the statements\<close>

text \<open>
  \<open>has_axes\<close>: the dict \<open>arm_state\<close> holds the three keys the module reads.
  \<open>sum_in_order\<close>: the sum of a list of numbers taken from the left, starting at
  \<open>0\<close>, which is the order in which \<open>+=\<close> applies the deltas.
  \<open>moves\<close>: a session of Cartesian moves only, given by its deltas.
  \<open>unpadded\<close>: a line that \<open>str.strip\<close> leaves as it is.
  \<open>converts\<close>: a number that is a float, or an int that \<open>to_float\<close> converts.
  \<open>accepted\<close>: a call all of whose numbers convert.
\<close>

definition has_axes :: "'n state \<Rightarrow> bool" where
  "has_axes s \<longleftrightarrow>
     arm_state s ''x'' \<noteq> None \<and> arm_state s ''y'' \<noteq> None \<and> arm_state s ''z'' \<noteq> None"

definition sum_in_order :: "('n::{plus,zero}) list \<Rightarrow> 'n" where
  "sum_in_order ds = foldl (+) 0 ds"

definition moves :: "('n \<times> 'n \<times> 'n) list \<Rightarrow> 'n call list" where
  "moves ds = map (\<lambda>(dx, dy, dz). Move dx dy dz) ds"

definition unpadded :: "string \<Rightarrow> bool" where
  "unpadded c \<longleftrightarrow> c \<noteq> [] \<and> \<not> isspace (hd c) \<and> \<not> isspace (last c)"

definition converts :: "(int \<Rightarrow> 'n option) \<Rightarrow> 'n number \<Rightarrow> bool" where
  "converts to_float v = (case as_float to_float v of Inl e \<Rightarrow> False | Inr f \<Rightarrow> True)"

fun accepted :: "(int \<Rightarrow> 'n option) \<Rightarrow> 'n call_num \<Rightarrow> bool" where
  "accepted to_float (MoveNum x y z) =
     (converts to_float x \<and> converts to_float y \<and> converts to_float z)"
| "accepted to_float (RotateNum joint_name degrees) = converts to_float degrees"
| "accepted to_float (GripperNum action) = True"

section \<open>Properties\<close>

subsection \<open>Single calls and sessions\<close>

lemma move_cartesian_Inr:
  assumes "arm_state s ''x'' = Some a" "arm_state s ''y'' = Some b" "arm_state s ''z'' = Some c"
  shows "move_cartesian fmt x y z s =
     Inr (s\<lparr>arm_state := (arm_state s)(''x'' \<mapsto> a + x, ''y'' \<mapsto> b + y, ''z'' \<mapsto> c + z),
            json_commands := json_commands s @
              [[(''type'', JStr ''cartesian_move''),
                (''x'', JNum (a + x)), (''y'', JNum (b + y)), (''z'', JNum (c + z))]],
            python_commands := python_commands s @
              [''bot.arm.set_ee_cartesian_trajectory(x='' @ fmt (a + x)
               @ '', y='' @ fmt (b + y) @ '', z='' @ fmt (c + z) @ '')'']\<rparr>)"
  using assms by (simp add: move_cartesian_def iadd_item_def getitem_def)

lemma move_cartesian_Inr_iff:
  "(\<exists>s'. move_cartesian fmt x y z s = Inr s') \<longleftrightarrow> has_axes s"
  by (auto simp: move_cartesian_def iadd_item_def getitem_def has_axes_def
           split: option.splits sum.splits)

lemma has_axes_init: "has_axes (init fs)"
  by (simp add: has_axes_def init_def)

lemma dispatch_appends:
  assumes "dispatch rad fmt c s = Inr s'"
  shows "\<exists>j p. json_commands s' = json_commands s @ [j]
           \<and> python_commands s' = python_commands s @ [p]"
proof (cases c)
  case (Move x y z)
  with assms have m: "move_cartesian fmt x y z s = Inr s'" by simp
  then have "has_axes s" using move_cartesian_Inr_iff by blast
  then obtain a b c where "arm_state s ''x'' = Some a" "arm_state s ''y'' = Some b"
      "arm_state s ''z'' = Some c"
    by (auto simp: has_axes_def)
  from move_cartesian_Inr [OF this, of fmt x y z] m show ?thesis by auto
next
  case (Rotate joint_name degrees)
  with assms show ?thesis by (auto simp: rotate_joint_def)
next
  case (Gripper action)
  with assms show ?thesis by (auto simp: control_gripper_def)
qed

lemma dispatch_has_axes:
  assumes "has_axes s"
  shows "\<exists>s'. dispatch rad fmt c s = Inr s' \<and> has_axes s' \<and> files s' = files s"
proof (cases c)
  case (Move x y z)
  from assms obtain a b c where ax: "arm_state s ''x'' = Some a" "arm_state s ''y'' = Some b"
      "arm_state s ''z'' = Some c"
    by (auto simp: has_axes_def)
  show ?thesis unfolding Move dispatch.simps move_cartesian_Inr [OF ax]
    by (simp add: has_axes_def)
next
  case (Rotate joint_name degrees)
  with assms show ?thesis by (simp add: rotate_joint_def has_axes_def)
next
  case (Gripper action)
  with assms show ?thesis by (simp add: control_gripper_def has_axes_def)
qed

lemma run_append:
  "run rad fmt (cs @ ds) s =
     (case run rad fmt cs s of Inl e \<Rightarrow> Inl e | Inr s' \<Rightarrow> run rad fmt ds s')"
  by (induction cs arbitrary: s) (auto split: sum.splits)

lemma run_has_axes:
  "has_axes s \<Longrightarrow> \<exists>s'. run rad fmt cs s = Inr s' \<and> has_axes s' \<and> files s' = files s"
proof (induction cs arbitrary: s)
  case Nil
  then show ?case by simp
next
  case (Cons c cs)
  from dispatch_has_axes [OF Cons.prems, of rad fmt c]
  obtain s1 where s1: "dispatch rad fmt c s = Inr s1" "has_axes s1" "files s1 = files s"
    by blast
  from Cons.IH [OF s1(2)] s1 show ?case by auto
qed

lemma run_extends:
  "run rad fmt cs s = Inr s' \<Longrightarrow>
     \<exists>js ps. json_commands s' = json_commands s @ js \<and> length js = length cs
          \<and> python_commands s' = python_commands s @ ps \<and> length ps = length cs"
proof (induction cs arbitrary: s)
  case Nil
  then show ?case by simp
next
  case (Cons c cs)
  then obtain s1 where s1: "dispatch rad fmt c s = Inr s1" "run rad fmt cs s1 = Inr s'"
    by (auto split: sum.splits)
  from dispatch_appends [OF s1(1)] obtain j p where
    jp: "json_commands s1 = json_commands s @ [j]" "python_commands s1 = python_commands s @ [p]"
    by blast
  from Cons.IH [OF s1(2)] obtain js ps where
    "json_commands s' = json_commands s1 @ js" "length js = length cs"
    "python_commands s' = python_commands s1 @ ps" "length ps = length cs"
    by blast
  with jp have "json_commands s' = json_commands s @ (j # js) \<and> length (j # js) = length (c # cs)
      \<and> python_commands s' = python_commands s @ (p # ps) \<and> length (p # ps) = length (c # cs)"
    by simp
  then show ?case by blast
qed

lemma run_nth_entry:
  assumes "run rad fmt cs s = Inr s'" "i < length cs"
  shows "\<exists>si si'. run rad fmt (take i cs) s = Inr si \<and> dispatch rad fmt (cs ! i) si = Inr si'
           \<and> json_commands si' = json_commands si @ [json_commands s' ! (length (json_commands s) + i)]
           \<and> python_commands si' =
               python_commands si @ [python_commands s' ! (length (python_commands s) + i)]"
proof -
  have split: "cs = take i cs @ (cs ! i) # drop (Suc i) cs"
    using assms(2) by (simp add: id_take_nth_drop)
  from assms(1) have "run rad fmt (take i cs @ (cs ! i) # drop (Suc i) cs) s = Inr s'"
    using split by simp
  then obtain si si' where si: "run rad fmt (take i cs) s = Inr si"
      "dispatch rad fmt (cs ! i) si = Inr si'" "run rad fmt (drop (Suc i) cs) si' = Inr s'"
    by (auto simp: run_append split: sum.splits)
  from run_extends [OF si(1)] assms(2) obtain js ps where pre:
    "json_commands si = json_commands s @ js" "length js = i"
    "python_commands si = python_commands s @ ps" "length ps = i"
    by auto
  from dispatch_appends [OF si(2)] obtain j p where jp:
    "json_commands si' = json_commands si @ [j]" "python_commands si' = python_commands si @ [p]"
    by blast
  from run_extends [OF si(3)] obtain js' ps' where post:
    "json_commands s' = json_commands si' @ js'" "python_commands s' = python_commands si' @ ps'"
    by blast
  have "json_commands s' ! (length (json_commands s) + i) = j"
    using pre jp post by (simp add: nth_append)
  moreover have "python_commands s' ! (length (python_commands s) + i) = p"
    using pre jp post by (simp add: nth_append)
  ultimately show ?thesis using si jp by auto
qed

lemma lower_char_idem: "lower_char (lower_char c) = lower_char c"
  by (auto simp: lower_char_def Let_def)

lemma lower_char_not_capital:
  "\<not> (65 \<le> (of_char (lower_char c) :: nat) \<and> (of_char (lower_char c) :: nat) \<le> 90)"
  by (auto simp: lower_char_def Let_def)

lemma lower_no_capital:
  "list_all (\<lambda>c. \<not> (65 \<le> (of_char c :: nat) \<and> (of_char c :: nat) \<le> 90)) (lower s)"
  using lower_char_not_capital by (induction s) (simp_all add: lower_def)

lemma lower_idem: "lower (lower s) = lower s"
  by (simp add: lower_def lower_char_idem)

lemma lower_Open: "lower ''Open'' = ''open''"
  by code_simp

lemma lower_close: "lower ''close'' = ''close''"
  by code_simp

lemma run_moves_from:
  assumes "arm_state s = [''x'' \<mapsto> a, ''y'' \<mapsto> b, ''z'' \<mapsto> c]"
  shows "\<exists>s'. run rad fmt (moves ds) s = Inr s'
     \<and> arm_state s' = [''x'' \<mapsto> foldl (+) a (map fst ds),
                       ''y'' \<mapsto> foldl (+) b (map (fst \<circ> snd) ds),
                       ''z'' \<mapsto> foldl (+) c (map (snd \<circ> snd) ds)]
     \<and> (ds \<noteq> [] \<longrightarrow>
          last (json_commands s') =
            [(''type'', JStr ''cartesian_move''),
             (''x'', JNum (foldl (+) a (map fst ds))),
             (''y'', JNum (foldl (+) b (map (fst \<circ> snd) ds))),
             (''z'', JNum (foldl (+) c (map (snd \<circ> snd) ds)))])"
  using assms
proof (induction ds arbitrary: s a b c)
  case Nil
  then show ?case by (simp add: moves_def)
next
  case (Cons d ds)
  obtain dx dy dz where d: "d = (dx, dy, dz)" by (cases d)
  define s1 where "s1 =
    s\<lparr>arm_state := (arm_state s)(''x'' \<mapsto> a + dx, ''y'' \<mapsto> b + dy, ''z'' \<mapsto> c + dz),
      json_commands := json_commands s @
        [[(''type'', JStr ''cartesian_move''),
          (''x'', JNum (a + dx)), (''y'', JNum (b + dy)), (''z'', JNum (c + dz))]],
      python_commands := python_commands s @
        [''bot.arm.set_ee_cartesian_trajectory(x='' @ fmt (a + dx)
         @ '', y='' @ fmt (b + dy) @ '', z='' @ fmt (c + dz) @ '')'']\<rparr>"
  have mv: "move_cartesian fmt dx dy dz s = Inr s1"
    unfolding s1_def by (rule move_cartesian_Inr) (simp_all add: Cons.prems)
  have arm1: "arm_state s1 = [''x'' \<mapsto> a + dx, ''y'' \<mapsto> b + dy, ''z'' \<mapsto> c + dz]"
    by (auto simp: s1_def Cons.prems)
  have last1: "last (json_commands s1) =
      [(''type'', JStr ''cartesian_move''),
       (''x'', JNum (a + dx)), (''y'', JNum (b + dy)), (''z'', JNum (c + dz))]"
    by (simp add: s1_def)
  from Cons.IH [OF arm1] obtain s' where s': "run rad fmt (moves ds) s1 = Inr s'"
    "arm_state s' = [''x'' \<mapsto> foldl (+) (a + dx) (map fst ds),
                     ''y'' \<mapsto> foldl (+) (b + dy) (map (fst \<circ> snd) ds),
                     ''z'' \<mapsto> foldl (+) (c + dz) (map (snd \<circ> snd) ds)]"
    "ds \<noteq> [] \<longrightarrow> last (json_commands s') =
            [(''type'', JStr ''cartesian_move''),
             (''x'', JNum (foldl (+) (a + dx) (map fst ds))),
             (''y'', JNum (foldl (+) (b + dy) (map (fst \<circ> snd) ds))),
             (''z'', JNum (foldl (+) (c + dz) (map (snd \<circ> snd) ds)))]"
    by blast
  have run: "run rad fmt (moves (d # ds)) s = Inr s'"
    using mv s'(1) by (simp add: moves_def d)
  have "ds = [] \<Longrightarrow> s' = s1" using s'(1) by (simp add: moves_def)
  with last1 s'(3) have "last (json_commands s') =
            [(''type'', JStr ''cartesian_move''),
             (''x'', JNum (foldl (+) a (map fst (d # ds)))),
             (''y'', JNum (foldl (+) b (map (fst \<circ> snd) (d # ds)))),
             (''z'', JNum (foldl (+) c (map (snd \<circ> snd) (d # ds))))]"
    by (cases "ds = []") (simp_all add: d)
  moreover have "foldl (+) (a + dx) (map fst ds) = foldl (+) a (map fst (d # ds))"
    "foldl (+) (b + dy) (map (fst \<circ> snd) ds) = foldl (+) b (map (fst \<circ> snd) (d # ds))"
    "foldl (+) (c + dz) (map (snd \<circ> snd) ds) = foldl (+) c (map (snd \<circ> snd) (d # ds))"
    by (simp_all add: d)
  ultimately show ?case using run s'(2) by metis
qed

lemma strip_unpadded: "unpadded c \<Longrightarrow> strip c = c"
proof -
  assume u: "unpadded c"
  then have "dropWhile isspace c = c"
    by (cases c) (auto simp: unpadded_def)
  moreover from u have "dropWhile isspace (rev c) = rev c"
    by (cases "rev c") (auto simp: unpadded_def hd_rev)
  ultimately show ?thesis by (simp add: strip_def)
qed

lemma unpadded_line: "\<not> isspace a \<Longrightarrow> \<not> isspace b \<Longrightarrow> unpadded (a # m @ [b])"
  by (simp add: unpadded_def)

lemma isspace_b: "\<not> isspace CHR ''b''" "\<not> isspace CHR '')''"
  by (simp_all add: isspace_def)

lemma dispatch_unpadded:
  assumes "dispatch rad fmt c s = Inr s'" "list_all unpadded (python_commands s)"
  shows "list_all unpadded (python_commands s')"
proof (cases c)
  case (Move x y z)
  with assms have m: "move_cartesian fmt x y z s = Inr s'" by simp
  then have "has_axes s" using move_cartesian_Inr_iff by blast
  then obtain a b c where "arm_state s ''x'' = Some a" "arm_state s ''y'' = Some b"
      "arm_state s ''z'' = Some c"
    by (auto simp: has_axes_def)
  from move_cartesian_Inr [OF this, of fmt x y z] m
  have "python_commands s' = python_commands s @
              [''bot.arm.set_ee_cartesian_trajectory(x='' @ fmt (a + x)
               @ '', y='' @ fmt (b + y) @ '', z='' @ fmt (c + z) @ '')'']"
    by auto
  moreover have "unpadded (''bot.arm.set_ee_cartesian_trajectory(x='' @ fmt (a + x)
               @ '', y='' @ fmt (b + y) @ '', z='' @ fmt (c + z) @ '')'')"
    using unpadded_line [OF isspace_b, of "''ot.arm.set_ee_cartesian_trajectory(x='' @ fmt (a + x)
               @ '', y='' @ fmt (b + y) @ '', z='' @ fmt (c + z)"]
    by simp
  ultimately show ?thesis using assms(2) by simp
next
  case (Rotate joint_name degrees)
  have "unpadded (''bot.arm.set_single_joint_position(joint_name='' @ squote @ joint_name
               @ squote @ '', position='' @ fmt (rad degrees) @ '')'')"
    using unpadded_line [OF isspace_b, of "''ot.arm.set_single_joint_position(joint_name='' @ squote @ joint_name
               @ squote @ '', position='' @ fmt (rad degrees)"]
    by simp
  with Rotate assms show ?thesis by (auto simp: rotate_joint_def)
next
  case (Gripper action)
  have "unpadded (''bot.gripper.'' @ action @ ''()'')"
    using unpadded_line [OF isspace_b, of "''ot.gripper.'' @ action @ ''(''"]
    by simp
  with Gripper assms show ?thesis by (auto simp: control_gripper_def)
qed

lemma run_unpadded:
  "run rad fmt cs s = Inr s' \<Longrightarrow> list_all unpadded (python_commands s)
     \<Longrightarrow> list_all unpadded (python_commands s')"
proof (induction cs arbitrary: s)
  case Nil
  then show ?case by simp
next
  case (Cons c cs)
  then obtain s1 where s1: "dispatch rad fmt c s = Inr s1" "run rad fmt cs s1 = Inr s'"
    by (auto split: sum.splits)
  from Cons.IH [OF s1(2) dispatch_unpadded [OF s1(1) Cons.prems(2)]] show ?case .
qed

lemma map_strip_unpadded:
  "list_all unpadded cs \<Longrightarrow> map (\<lambda>command. strip command @ nl) cs = map (\<lambda>command. command @ nl) cs"
  by (induction cs) (simp_all add: strip_unpadded)

subsection \<open>Calls with Python numbers\<close>

text \<open>
  On float arguments the functions on Python numbers are the functions at the annotated
  type, and so are the sessions (\<open>move_cartesian_num_float\<close>, \<open>rotate_joint_num_float\<close>,
  \<open>run_num_float\<close>): a result differs only in that a raise carries the globals it
  leaves.
\<close>

lemma move_cartesian_num_Inr:
  assumes "arm_state s ''x'' = Some a" "arm_state s ''y'' = Some b" "arm_state s ''z'' = Some c"
    and "as_float to_float x = Inr fx" "as_float to_float y = Inr fy"
      "as_float to_float z = Inr fz"
  shows "move_cartesian_num to_float fmt x y z s =
     Inr (s\<lparr>arm_state := (arm_state s)(''x'' \<mapsto> a + fx, ''y'' \<mapsto> b + fy, ''z'' \<mapsto> c + fz),
            json_commands := json_commands s @
              [[(''type'', JStr ''cartesian_move''),
                (''x'', JNum (a + fx)), (''y'', JNum (b + fy)), (''z'', JNum (c + fz))]],
            python_commands := python_commands s @
              [''bot.arm.set_ee_cartesian_trajectory(x='' @ fmt (a + fx)
               @ '', y='' @ fmt (b + fy) @ '', z='' @ fmt (c + fz) @ '')'']\<rparr>)"
  using assms by (simp add: move_cartesian_num_def iadd_item_num_def getitem_def)

lemma rotate_joint_num_Inr:
  assumes "as_float to_float degrees = Inr d"
  shows "rotate_joint_num to_float rad fmt joint_name degrees s =
     Inr (s\<lparr>json_commands := json_commands s @
              [[(''type'', JStr ''rotate_joint''),
                (''joint_name'', JStr joint_name), (''degrees'', json_number degrees)]],
            python_commands := python_commands s @
              [''bot.arm.set_single_joint_position(joint_name='' @ squote @ joint_name
               @ squote @ '', position='' @ fmt (rad d) @ '')'']\<rparr>)"
  using assms by (simp add: rotate_joint_num_def)

lemma converts_as_float: "converts to_float v \<Longrightarrow> \<exists>f. as_float to_float v = Inr f"
  by (simp add: converts_def split: sum.splits)

lemma move_cartesian_num_float:
  "(case move_cartesian_num to_float fmt (PyFloat x) (PyFloat y) (PyFloat z) s of
      Inl r \<Rightarrow> Inl (fst r) | Inr s' \<Rightarrow> Inr s') = move_cartesian fmt x y z s"
  by (simp add: move_cartesian_num_def move_cartesian_def iadd_item_num_def iadd_item_def
      as_float_def split: sum.splits)

lemma rotate_joint_num_float:
  "rotate_joint_num to_float rad fmt joint_name (PyFloat d) s =
     Inr (rotate_joint rad fmt joint_name d s)"
  by (simp add: rotate_joint_num_def rotate_joint_def as_float_def json_number_def)

lemma dispatch_num_float:
  "(case dispatch_num to_float rad fmt (float_call c) s of
      Inl r \<Rightarrow> Inl (fst r) | Inr s' \<Rightarrow> Inr s') = dispatch rad fmt c s"
  by (cases c) (simp_all add: move_cartesian_num_float rotate_joint_num_float)

lemma run_num_float:
  "(case run_num to_float rad fmt (map float_call cs) s of
      Inl r \<Rightarrow> Inl (fst r) | Inr s' \<Rightarrow> Inr s') = run rad fmt cs s"
proof (induction cs arbitrary: s)
  case Nil
  show ?case by simp
next
  case (Cons c cs)
  show ?case
  proof (cases "dispatch_num to_float rad fmt (float_call c) s")
    case (Inl r)
    with dispatch_num_float [of to_float rad fmt c s] have "dispatch rad fmt c s = Inl (fst r)"
      by simp
    with Inl show ?thesis by simp
  next
    case (Inr s1)
    with dispatch_num_float [of to_float rad fmt c s] have "dispatch rad fmt c s = Inr s1"
      by simp
    with Inr Cons.IH [of s1] show ?thesis by simp
  qed
qed

lemma dispatch_num_has_axes:
  assumes "has_axes s" "accepted to_float c"
  shows "\<exists>s'. dispatch_num to_float rad fmt c s = Inr s' \<and> has_axes s'"
proof (cases c)
  case (MoveNum x y z)
  from assms(1) obtain a b c where ax: "arm_state s ''x'' = Some a" "arm_state s ''y'' = Some b"
      "arm_state s ''z'' = Some c"
    by (auto simp: has_axes_def)
  from assms(2) MoveNum have "converts to_float x" "converts to_float y" "converts to_float z"
    by simp_all
  then obtain fx fy fz where fl: "as_float to_float x = Inr fx"
      "as_float to_float y = Inr fy" "as_float to_float z = Inr fz"
    using converts_as_float by metis
  show ?thesis unfolding MoveNum dispatch_num.simps move_cartesian_num_Inr [OF ax fl]
    by (simp add: has_axes_def)
next
  case (RotateNum joint_name degrees)
  with assms(2) have "converts to_float degrees" by simp
  then obtain d where "as_float to_float degrees = Inr d"
    using converts_as_float by metis
  from rotate_joint_num_Inr [OF this] assms(1) show ?thesis
    unfolding RotateNum dispatch_num.simps by (simp add: has_axes_def)
next
  case (GripperNum action)
  with assms(1) show ?thesis by (simp add: control_gripper_def has_axes_def)
qed

lemma run_num_has_axes:
  "has_axes s \<Longrightarrow> list_all (accepted to_float) cs
     \<Longrightarrow> \<exists>s'. run_num to_float rad fmt cs s = Inr s' \<and> has_axes s'"
proof (induction cs arbitrary: s)
  case Nil
  then show ?case by simp
next
  case (Cons c cs)
  from Cons.prems have "accepted to_float c" "list_all (accepted to_float) cs" by simp_all
  from dispatch_num_has_axes [OF Cons.prems(1) this(1), of rad fmt]
  obtain s1 where s1: "dispatch_num to_float rad fmt c s = Inr s1" "has_axes s1" by blast
  from Cons.IH [OF s1(2) \<open>list_all (accepted to_float) cs\<close>] s1(1) show ?case by auto
qed

subsection \<open>The claims\<close>

text \<open>
  C1. A session of Cartesian moves only, from the initial globals: every call
  succeeds; the record at index \<open>i\<close> of \<open>json_commands\<close> is the \<open>cartesian_move\<close> record whose
  coordinates are the sums, in call order, of the deltas of the calls up to and
  including the one at index \<open>i\<close>; and \<open>arm_state\<close> after that call holds the same
  three sums. The sums start at the initial \<open>0\<close> and use only the \<open>+\<close> of the numbers.
\<close>

theorem cartesian_moves_accumulate:
  fixes ds :: "('n::{plus,zero} \<times> 'n \<times> 'n) list"
  assumes "i < length ds"
  shows "\<exists>s si. run rad fmt (moves ds) (init fs) = Inr s
     \<and> run rad fmt (moves (take (Suc i) ds)) (init fs) = Inr si
     \<and> length (json_commands s) = length ds
     \<and> json_commands s ! i =
          [(''type'', JStr ''cartesian_move''),
           (''x'', JNum (sum_in_order (map fst (take (Suc i) ds)))),
           (''y'', JNum (sum_in_order (map (fst \<circ> snd) (take (Suc i) ds)))),
           (''z'', JNum (sum_in_order (map (snd \<circ> snd) (take (Suc i) ds))))]
     \<and> arm_state si =
          [''x'' \<mapsto> sum_in_order (map fst (take (Suc i) ds)),
           ''y'' \<mapsto> sum_in_order (map (fst \<circ> snd) (take (Suc i) ds)),
           ''z'' \<mapsto> sum_in_order (map (snd \<circ> snd) (take (Suc i) ds))]"
proof -
  let ?pre = "take (Suc i) ds"
  have arm0: "arm_state (init fs :: 'n state) = [''x'' \<mapsto> 0, ''y'' \<mapsto> 0, ''z'' \<mapsto> 0]"
    by (simp add: init_def)
  have ne: "?pre \<noteq> []" using assms by auto
  from run_moves_from [OF arm0, of rad fmt ?pre] ne obtain si where si:
    "run rad fmt (moves ?pre) (init fs) = Inr si"
    "arm_state si =
          [''x'' \<mapsto> sum_in_order (map fst ?pre),
           ''y'' \<mapsto> sum_in_order (map (fst \<circ> snd) ?pre),
           ''z'' \<mapsto> sum_in_order (map (snd \<circ> snd) ?pre)]"
    "last (json_commands si) =
          [(''type'', JStr ''cartesian_move''),
           (''x'', JNum (sum_in_order (map fst ?pre))),
           (''y'', JNum (sum_in_order (map (fst \<circ> snd) ?pre))),
           (''z'', JNum (sum_in_order (map (snd \<circ> snd) ?pre)))]"
    unfolding sum_in_order_def by blast
  have "moves ds = moves ?pre @ moves (drop (Suc i) ds)"
    unfolding moves_def by (simp flip: map_append)
  moreover from run_moves_from [OF arm0, of rad fmt ds] obtain s where
    s: "run rad fmt (moves ds) (init fs) = Inr s" by blast
  ultimately have rest: "run rad fmt (moves (drop (Suc i) ds)) si = Inr s"
    using si(1) by (simp add: run_append)
  from run_extends [OF si(1)] assms have "length (json_commands si) = Suc i"
    by (auto simp: init_def moves_def)
  then have js: "length (json_commands si) = Suc i" "json_commands si \<noteq> []"
    by auto
  from run_extends [OF rest] obtain js' where js': "json_commands s = json_commands si @ js'"
    by blast
  from run_extends [OF s] have len: "length (json_commands s) = length ds"
    by (auto simp: init_def moves_def)
  have "json_commands s ! i = last (json_commands si)"
    using js js' by (simp add: nth_append last_conv_nth)
  with s si len show ?thesis by auto
qed

theorem cartesian_moves_accumulate_witness:
  "(1::nat) < length [(0, 0, 5), (0, 10, 0), (0, 0, - 5 :: int)]
   \<and> (\<exists>s si. run (\<lambda>d. d) (\<lambda>v. ''#'') (moves [(0, 0, 5), (0, 10, 0), (0, 0, - 5 :: int)]) (init Map.empty) = Inr s
     \<and> run (\<lambda>d. d) (\<lambda>v. ''#'') (moves [(0, 0, 5), (0, 10, 0 :: int)]) (init Map.empty) = Inr si
     \<and> json_commands s ! 1 =
          [(''type'', JStr ''cartesian_move''), (''x'', JNum 0), (''y'', JNum 10), (''z'', JNum 5)]
     \<and> arm_state si = [''x'' \<mapsto> 0, ''y'' \<mapsto> 10, ''z'' \<mapsto> 5])"
  using cartesian_moves_accumulate [of 1 "[(0, 0, 5), (0, 10, 0), (0, 0, - 5 :: int)]"
      "\<lambda>d. d" "\<lambda>v. ''#''" Map.empty]
  by (fastforce simp: sum_in_order_def)

text \<open>
  C2. Every call that returns has appended exactly one entry to \<open>json_commands\<close> and
  exactly one to \<open>python_commands\<close>. So after any session from the initial globals
  both lists are as long as the session, and the entries at index \<open>i\<close> of both lists
  are the two entries that the call at index \<open>i\<close> appended.
\<close>

theorem one_entry_per_call_in_each_sequence:
  "(\<forall>s s'. dispatch rad fmt c s = Inr s' \<longrightarrow>
       (\<exists>j p. json_commands s' = json_commands s @ [j]
            \<and> python_commands s' = python_commands s @ [p]))
   \<and> (\<exists>s. run rad fmt cs (init fs) = Inr s
        \<and> length (json_commands s) = length cs
        \<and> length (python_commands s) = length cs
        \<and> (\<forall>i<length cs. \<exists>si si'.
              run rad fmt (take i cs) (init fs) = Inr si
              \<and> dispatch rad fmt (cs ! i) si = Inr si'
              \<and> json_commands si' = json_commands si @ [json_commands s ! i]
              \<and> python_commands si' = python_commands si @ [python_commands s ! i]))"
proof -
  from run_has_axes [OF has_axes_init, of rad fmt cs fs] obtain s where
    s: "run rad fmt cs (init fs) = Inr s" by blast
  from run_extends [OF s] have len:
    "length (json_commands s) = length cs" "length (python_commands s) = length cs"
    by (auto simp: init_def)
  have "\<exists>si si'. run rad fmt (take i cs) (init fs) = Inr si
              \<and> dispatch rad fmt (cs ! i) si = Inr si'
              \<and> json_commands si' = json_commands si @ [json_commands s ! i]
              \<and> python_commands si' = python_commands si @ [python_commands s ! i]"
    if "i < length cs" for i
    using run_nth_entry [OF s that] by (simp add: init_def)
  with s len dispatch_appends [of rad fmt c] show ?thesis by blast
qed

theorem one_entry_per_call_in_each_sequence_witness:
  "\<exists>s. run (\<lambda>d. d) (\<lambda>v. ''#'') [Move 1 2 3, Gripper ''Open'', Rotate ''waist'' (180 :: int)]
          (init Map.empty) = Inr s
     \<and> length (json_commands s) = 3 \<and> length (python_commands s) = 3
     \<and> (1::nat) < length [Move 1 2 3, Gripper ''Open'', Rotate ''waist'' (180 :: int)]
     \<and> (\<exists>si si'. run (\<lambda>d. d) (\<lambda>v. ''#'') [Move 1 2 (3 :: int)] (init Map.empty) = Inr si
           \<and> dispatch (\<lambda>d. d) (\<lambda>v. ''#'') (Gripper ''Open'') si = Inr si'
           \<and> json_commands si' = json_commands si @ [json_commands s ! 1]
           \<and> python_commands si' = python_commands si @ [python_commands s ! 1])"
proof -
  let ?cs = "[Move 1 2 3, Gripper ''Open'', Rotate ''waist'' (180 :: int)]"
  from one_entry_per_call_in_each_sequence
    [of "\<lambda>d. d" "\<lambda>v. ''#''" "Gripper ''x''" ?cs Map.empty]
  obtain s where s:
    "run (\<lambda>d. d) (\<lambda>v. ''#'') ?cs (init Map.empty) = Inr s"
    "length (json_commands s) = length ?cs" "length (python_commands s) = length ?cs"
    "\<forall>i<length ?cs. \<exists>si si'.
        run (\<lambda>d. d) (\<lambda>v. ''#'') (take i ?cs) (init Map.empty) = Inr si
        \<and> dispatch (\<lambda>d. d) (\<lambda>v. ''#'') (?cs ! i) si = Inr si'
        \<and> json_commands si' = json_commands si @ [json_commands s ! i]
        \<and> python_commands si' = python_commands si @ [python_commands s ! i]"
    by blast
  have one: "(1::nat) < length ?cs" by simp
  from s(4) [rule_format, OF one] obtain si si' where
    "run (\<lambda>d. d) (\<lambda>v. ''#'') (take 1 ?cs) (init Map.empty) = Inr si"
    "dispatch (\<lambda>d. d) (\<lambda>v. ''#'') (?cs ! 1) si = Inr si'"
    "json_commands si' = json_commands si @ [json_commands s ! 1]"
    "python_commands si' = python_commands si @ [python_commands s ! 1]"
    by blast
  then have "run (\<lambda>d. d) (\<lambda>v. ''#'') [Move 1 2 (3 :: int)] (init Map.empty) = Inr si
      \<and> dispatch (\<lambda>d. d) (\<lambda>v. ''#'') (Gripper ''Open'') si = Inr si'
      \<and> json_commands si' = json_commands si @ [json_commands s ! 1]
      \<and> python_commands si' = python_commands si @ [python_commands s ! 1]"
    by (simp del: run.simps dispatch.simps)
  with s(1-3) one show ?thesis by (auto simp del: run.simps dispatch.simps)
qed

text \<open>
  C3. \<open>rotate_joint\<close> puts the degrees, as given, into the record, and the text of
  the radians into the line; over the reals \<open>math.radians d\<close> is \<open>d * pi / 180\<close>.
\<close>

theorem rotate_degrees_kept_radians_written:
  "json_commands (rotate_joint math_radians fmt joint_name d s) =
     json_commands s @
       [[(''type'', JStr ''rotate_joint''), (''joint_name'', JStr joint_name),
         (''degrees'', JNum d)]]
   \<and> python_commands (rotate_joint math_radians fmt joint_name d s) =
     python_commands s @
       [''bot.arm.set_single_joint_position(joint_name='' @ squote @ joint_name @ squote
        @ '', position='' @ fmt (d * pi / 180) @ '')'']"
  by (simp add: rotate_joint_def math_radians_def)

text \<open>
  C4. \<open>control_gripper\<close> puts the lower-cased action into the record and the action
  as the caller wrote it into the line. The lower-cased action has the length of the
  action and no capital A to Z, and lower-casing it again changes nothing; \<open>Open\<close> is
  recorded as \<open>open\<close> and invoked as \<open>Open()\<close>.
\<close>

theorem gripper_record_lowered_line_verbatim:
  "json_commands (control_gripper action s) =
     json_commands s @ [[(''type'', JStr ''gripper''), (''action'', JStr (lower action))]]
   \<and> python_commands (control_gripper action s) =
     python_commands s @ [''bot.gripper.'' @ action @ ''()'']
   \<and> list_all (\<lambda>c. \<not> (65 \<le> (of_char c :: nat) \<and> (of_char c :: nat) \<le> 90)) (lower action)
   \<and> length (lower action) = length action
   \<and> lower (lower action) = lower action
   \<and> lower ''Open'' = ''open''
   \<and> python_commands (control_gripper ''Open'' s) = python_commands s @ [''bot.gripper.Open()'']"
proof -
  have "length (lower action) = length action"
    by (simp add: lower_def)
  then show ?thesis
    using lower_no_capital [of action] lower_idem [of action] lower_Open
    by (simp add: control_gripper_def del: de_Morgan_conj not_le)
qed

text \<open>
  C5. The session of seven calls of the specification, over the reals, from the
  initial globals: the seven records, the seven lines, and the final position. The
  line of the rotation carries the text of \<open>pi\<close>, which is \<open>math.radians 180\<close>.
\<close>

theorem scenario_of_seven_calls:
  "run math_radians fmt
     [Move 0 0 5, Move 0 10 0, Move 0 0 (- 5), Gripper ''close'', Move 0 0 5,
      Rotate ''waist'' 180, Gripper ''Open'']
     (init fs) =
   Inr \<lparr>json_commands =
         [[(''type'', JStr ''cartesian_move''), (''x'', JNum 0), (''y'', JNum 0), (''z'', JNum 5)],
          [(''type'', JStr ''cartesian_move''), (''x'', JNum 0), (''y'', JNum 10), (''z'', JNum 5)],
          [(''type'', JStr ''cartesian_move''), (''x'', JNum 0), (''y'', JNum 10), (''z'', JNum 0)],
          [(''type'', JStr ''gripper''), (''action'', JStr ''close'')],
          [(''type'', JStr ''cartesian_move''), (''x'', JNum 0), (''y'', JNum 10), (''z'', JNum 5)],
          [(''type'', JStr ''rotate_joint''), (''joint_name'', JStr ''waist''),
           (''degrees'', JNum 180)],
          [(''type'', JStr ''gripper''), (''action'', JStr ''open'')]],
        python_commands =
         [''bot.arm.set_ee_cartesian_trajectory(x='' @ fmt 0 @ '', y='' @ fmt 0
            @ '', z='' @ fmt 5 @ '')'',
          ''bot.arm.set_ee_cartesian_trajectory(x='' @ fmt 0 @ '', y='' @ fmt 10
            @ '', z='' @ fmt 5 @ '')'',
          ''bot.arm.set_ee_cartesian_trajectory(x='' @ fmt 0 @ '', y='' @ fmt 10
            @ '', z='' @ fmt 0 @ '')'',
          ''bot.gripper.close()'',
          ''bot.arm.set_ee_cartesian_trajectory(x='' @ fmt 0 @ '', y='' @ fmt 10
            @ '', z='' @ fmt 5 @ '')'',
          ''bot.arm.set_single_joint_position(joint_name='' @ [CHR 0x27] @ ''waist''
            @ [CHR 0x27] @ '', position='' @ fmt pi @ '')'',
          ''bot.gripper.Open()''],
        arm_state = [''x'' \<mapsto> 0, ''y'' \<mapsto> 10, ''z'' \<mapsto> 5],
        files = fs\<rparr>"
  by (simp add: init_def move_cartesian_def iadd_item_def getitem_def rotate_joint_def
      control_gripper_def lower_Open lower_close squote_def math_radians_def)

text \<open>
  C6. \<open>rotate_joint\<close>, \<open>control_gripper\<close> and the two writers leave \<open>arm_state\<close> as it
  is, in every state and for all arguments. A Cartesian move that returns has added
  its deltas to the three coordinates and changed nothing else of \<open>arm_state\<close>: no
  operation resets the position.
\<close>

theorem arm_state_changed_by_moves_only:
  "arm_state (rotate_joint rad fmt joint_name degrees s) = arm_state s
   \<and> arm_state (control_gripper action s) = arm_state s
   \<and> arm_state (write_json_file floatstr filename s) = arm_state s
   \<and> arm_state (write_python_file filename s) = arm_state s
   \<and> (\<forall>s'. move_cartesian fmt x y z s = Inr s' \<longrightarrow>
        (\<exists>a b c. arm_state s ''x'' = Some a \<and> arm_state s ''y'' = Some b
             \<and> arm_state s ''z'' = Some c
             \<and> arm_state s' = (arm_state s)(''x'' \<mapsto> a + x, ''y'' \<mapsto> b + y, ''z'' \<mapsto> c + z)))"
proof -
  have "\<exists>a b c. arm_state s ''x'' = Some a \<and> arm_state s ''y'' = Some b
             \<and> arm_state s ''z'' = Some c
             \<and> arm_state s' = (arm_state s)(''x'' \<mapsto> a + x, ''y'' \<mapsto> b + y, ''z'' \<mapsto> c + z)"
    if m: "move_cartesian fmt x y z s = Inr s'" for s'
  proof -
    from m have "has_axes s" using move_cartesian_Inr_iff by blast
    then obtain a b c where ax: "arm_state s ''x'' = Some a" "arm_state s ''y'' = Some b"
      "arm_state s ''z'' = Some c"
      by (auto simp: has_axes_def)
    from move_cartesian_Inr [OF ax, of fmt x y z] m
    have "arm_state s' = (arm_state s)(''x'' \<mapsto> a + x, ''y'' \<mapsto> b + y, ''z'' \<mapsto> c + z)"
      by auto
    with ax show ?thesis by blast
  qed
  then show ?thesis
    by (simp add: rotate_joint_def control_gripper_def write_json_file_def write_python_file_def)
qed

theorem arm_state_changed_by_moves_only_witness:
  "\<exists>s'. move_cartesian (\<lambda>v. ''#'') 1 2 (3 :: int) (init Map.empty) = Inr s'
     \<and> arm_state s' = [''x'' \<mapsto> 1, ''y'' \<mapsto> 2, ''z'' \<mapsto> 3]
     \<and> arm_state (rotate_joint (\<lambda>d. d) (\<lambda>v. ''#'') ''waist'' 180 s') = arm_state s'
     \<and> arm_state (control_gripper ''close'' s') = arm_state s'"
proof -
  obtain s' where s': "move_cartesian (\<lambda>v. ''#'') 1 2 (3 :: int) (init Map.empty) = Inr s'"
    using move_cartesian_Inr_iff [of "\<lambda>v. ''#''" 1 2 "3 :: int" "init Map.empty"] has_axes_init
    by blast
  from arm_state_changed_by_moves_only
    [where s = "init Map.empty" and fmt = "\<lambda>v. ''#''" and x = 1 and y = 2 and z = "3 :: int"] s'
  have "arm_state s' = [''x'' \<mapsto> 1, ''y'' \<mapsto> 2, ''z'' \<mapsto> 3]"
    by (auto simp: init_def)
  moreover from arm_state_changed_by_moves_only
    [where s = s' and rad = "\<lambda>d. d" and fmt = "\<lambda>v. ''#''" and joint_name = "''waist''"
       and degrees = 180 and action = "''close''"]
  have "arm_state (rotate_joint (\<lambda>d. d) (\<lambda>v. ''#'') ''waist'' 180 s') = arm_state s'"
    "arm_state (control_gripper ''close'' s') = arm_state s'"
    by blast+
  ultimately show ?thesis using s' by blast
qed

text \<open>
  C7. Writing a file twice to the same destination, with no call in between, leaves
  the state that the first write left, so the file holds the same text after both
  writes: the dump of \<open>json_commands\<close>, respectively the preamble and the lines of
  \<open>python_commands\<close>. Neither writer changes \<open>arm_state\<close>, \<open>json_commands\<close> or
  \<open>python_commands\<close>.
\<close>

theorem export_idempotent:
  "write_json_file floatstr filename (write_json_file floatstr filename s)
     = write_json_file floatstr filename s
   \<and> files (write_json_file floatstr filename s) filename
     = Some (json_dump floatstr (json_commands s))
   \<and> write_python_file filename (write_python_file filename s) = write_python_file filename s
   \<and> files (write_python_file filename s) filename
     = Some (preamble @ concat (map (\<lambda>command. strip command @ nl) (python_commands s)))
   \<and> arm_state (write_json_file floatstr filename s) = arm_state s
   \<and> json_commands (write_json_file floatstr filename s) = json_commands s
   \<and> python_commands (write_json_file floatstr filename s) = python_commands s
   \<and> arm_state (write_python_file filename s) = arm_state s
   \<and> json_commands (write_python_file filename s) = json_commands s
   \<and> python_commands (write_python_file filename s) = python_commands s"
  by (simp add: write_json_file_def write_python_file_def)

text \<open>
  C8. With no call made, the JSON file is the empty list \<open>[]\<close> and the Python file is
  the preamble alone. The preamble is the fixed text of eight lines that constructs
  the manipulator for the robot model \<open>vx300\<close>, the group \<open>arm\<close> and the gripper
  \<open>gripper\<close>; after any session the Python file is that same preamble followed by
  the recorded lines, one per command.
\<close>

theorem export_of_empty_session:
  "files (write_json_file floatstr filename (init fs)) filename = Some ''[]''
   \<and> files (write_python_file filename (init fs)) filename = Some preamble
   \<and> preamble = concat (map (\<lambda>line. line @ [CHR 0x0A])
        [''from interbotix_xs_modules.arm import InterbotixManipulatorXS'',
         '''',
         ''bot = InterbotixManipulatorXS('',
         ''    robot_model='' @ [CHR 0x27] @ ''vx300'' @ [CHR 0x27] @ '','',
         ''    group_name='' @ [CHR 0x27] @ ''arm'' @ [CHR 0x27] @ '','',
         ''    gripper_name='' @ [CHR 0x27] @ ''gripper'' @ [CHR 0x27],
         '')'',
         ''''])
   \<and> (\<exists>s. run rad fmt cs (init fs) = Inr s
        \<and> files (write_python_file filename s) filename =
            Some (preamble @ concat (map (\<lambda>command. command @ [CHR 0x0A]) (python_commands s))))"
proof -
  have "files (write_json_file floatstr filename (init fs)) filename = Some ''[]''"
    by (simp add: write_json_file_def init_def json_dump_def)
  moreover have "files (write_python_file filename (init fs)) filename = Some preamble"
    by (simp add: write_python_file_def init_def)
  moreover have "preamble = concat (map (\<lambda>line. line @ [CHR 0x0A])
        [''from interbotix_xs_modules.arm import InterbotixManipulatorXS'',
         '''',
         ''bot = InterbotixManipulatorXS('',
         ''    robot_model='' @ [CHR 0x27] @ ''vx300'' @ [CHR 0x27] @ '','',
         ''    group_name='' @ [CHR 0x27] @ ''arm'' @ [CHR 0x27] @ '','',
         ''    gripper_name='' @ [CHR 0x27] @ ''gripper'' @ [CHR 0x27],
         '')'',
         ''''])"
    by (simp add: preamble_def nl_def squote_def)
  moreover have "\<exists>s. run rad fmt cs (init fs) = Inr s
        \<and> files (write_python_file filename s) filename =
            Some (preamble @ concat (map (\<lambda>command. command @ [CHR 0x0A]) (python_commands s)))"
  proof -
    from run_has_axes [OF has_axes_init, of rad fmt cs fs] obtain s where
      s: "run rad fmt cs (init fs) = Inr s" by blast
    have "list_all unpadded (python_commands (init fs))" by (simp add: init_def)
    from run_unpadded [OF s this] have "list_all unpadded (python_commands s)" .
    from map_strip_unpadded [OF this] have
      "files (write_python_file filename s) filename =
         Some (preamble @ concat (map (\<lambda>command. command @ nl) (python_commands s)))"
      unfolding write_python_file_def by (simp del: map_eq_conv)
    with s show ?thesis unfolding nl_def by blast
  qed
  ultimately show ?thesis by blast
qed

text \<open>
  C9. As the claim is written it fails: an int beyond the range of a double is a finite
  number, and with it \<open>move_cartesian\<close> and \<open>rotate_joint\<close> raise \<open>OverflowError\<close>
  (\<open>int_beyond_double_raises\<close> below). What holds is the claim for the numbers that
  convert: every float, finite or not, and every int that converts to a float.

  A session of calls with such numbers and any strings runs from the initial globals to
  its end without raising. In the globals it leaves, with the coordinates \<open>a\<close>, \<open>b\<close>,
  \<open>c\<close>, every further call with such numbers returns, and what it stores is its input:
  a move stores \<open>a + x\<close>, \<open>b + y\<close>, \<open>c + z\<close> in \<open>arm_state\<close>, in the record and in the
  line; a rotation stores the joint name as given, the degrees as the object passed,
  and the text of the radians; a gripper call stores the lower-cased action and the
  action as given. Nothing is checked against a vocabulary of joints or actions.
\<close>

theorem accepted_numbers_never_raise:
  assumes "list_all (accepted to_float) cs"
  shows "\<exists>s a b c. run_num to_float rad fmt cs (init fs) = Inr s
     \<and> arm_state s ''x'' = Some a \<and> arm_state s ''y'' = Some b \<and> arm_state s ''z'' = Some c
     \<and> (\<forall>x y z fx fy fz.
          as_float to_float x = Inr fx \<and> as_float to_float y = Inr fy
            \<and> as_float to_float z = Inr fz \<longrightarrow>
          move_cartesian_num to_float fmt x y z s =
            Inr (s\<lparr>arm_state :=
                     (arm_state s)(''x'' \<mapsto> a + fx, ''y'' \<mapsto> b + fy, ''z'' \<mapsto> c + fz),
                   json_commands := json_commands s @
                     [[(''type'', JStr ''cartesian_move''),
                       (''x'', JNum (a + fx)), (''y'', JNum (b + fy)), (''z'', JNum (c + fz))]],
                   python_commands := python_commands s @
                     [''bot.arm.set_ee_cartesian_trajectory(x='' @ fmt (a + fx)
                      @ '', y='' @ fmt (b + fy) @ '', z='' @ fmt (c + fz) @ '')'']\<rparr>))
     \<and> (\<forall>joint_name degrees d.
          as_float to_float degrees = Inr d \<longrightarrow>
          rotate_joint_num to_float rad fmt joint_name degrees s =
            Inr (s\<lparr>json_commands := json_commands s @
                     [[(''type'', JStr ''rotate_joint''),
                       (''joint_name'', JStr joint_name), (''degrees'', json_number degrees)]],
                   python_commands := python_commands s @
                     [''bot.arm.set_single_joint_position(joint_name='' @ squote @ joint_name
                      @ squote @ '', position='' @ fmt (rad d) @ '')'']\<rparr>))
     \<and> (\<forall>action.
          control_gripper action s =
            s\<lparr>json_commands := json_commands s @
                 [[(''type'', JStr ''gripper''), (''action'', JStr (lower action))]],
              python_commands := python_commands s @ [''bot.gripper.'' @ action @ ''()'']\<rparr>)
     \<and> (\<forall>f. as_float to_float (PyFloat f) = Inr f)"
proof -
  from run_num_has_axes [OF has_axes_init assms, of rad fmt fs] obtain s where
    s: "run_num to_float rad fmt cs (init fs) = Inr s" "has_axes s" by blast
  from s(2) obtain a b c where ax: "arm_state s ''x'' = Some a" "arm_state s ''y'' = Some b"
      "arm_state s ''z'' = Some c"
    by (auto simp: has_axes_def)
  have mv: "move_cartesian_num to_float fmt x y z s =
            Inr (s\<lparr>arm_state :=
                     (arm_state s)(''x'' \<mapsto> a + fx, ''y'' \<mapsto> b + fy, ''z'' \<mapsto> c + fz),
                   json_commands := json_commands s @
                     [[(''type'', JStr ''cartesian_move''),
                       (''x'', JNum (a + fx)), (''y'', JNum (b + fy)), (''z'', JNum (c + fz))]],
                   python_commands := python_commands s @
                     [''bot.arm.set_ee_cartesian_trajectory(x='' @ fmt (a + fx)
                      @ '', y='' @ fmt (b + fy) @ '', z='' @ fmt (c + fz) @ '')'']\<rparr>)"
    if "as_float to_float x = Inr fx \<and> as_float to_float y = Inr fy
            \<and> as_float to_float z = Inr fz" for x y z fx fy fz
    using move_cartesian_num_Inr [OF ax, of to_float x fx y fy z fz fmt] that by blast
  have gr: "control_gripper action s =
            s\<lparr>json_commands := json_commands s @
                 [[(''type'', JStr ''gripper''), (''action'', JStr (lower action))]],
              python_commands := python_commands s @ [''bot.gripper.'' @ action @ ''()'']\<rparr>"
    for action
    by (simp add: control_gripper_def)
  have fl: "as_float to_float (PyFloat f) = Inr f" for f
    by (simp add: as_float_def)
  from s(1) ax mv rotate_joint_num_Inr [of to_float _ _ rad fmt _ s] gr fl
  show ?thesis by blast
qed

theorem accepted_numbers_never_raise_witness:
  "list_all (accepted int_to_float)
     [MoveNum (PyFloat 0) (PyFloat 0) (PyInt 5), RotateNum ''waist'' (PyInt 180),
      GripperNum ''Open'']
   \<and> (\<exists>s. run_num int_to_float math_radians (\<lambda>v. ''#'')
          [MoveNum (PyFloat 0) (PyFloat 0) (PyInt 5), RotateNum ''waist'' (PyInt 180),
           GripperNum ''Open''] (init Map.empty) = Inr s
        \<and> (\<exists>s'. move_cartesian_num int_to_float (\<lambda>v. ''#'') (PyInt 1) (PyFloat 2) (PyFloat 3) s
              = Inr s'))"
proof -
  let ?cs = "[MoveNum (PyFloat 0) (PyFloat 0) (PyInt 5), RotateNum ''waist'' (PyInt 180),
      GripperNum ''Open''] :: real call_num list"
  have acc: "list_all (accepted int_to_float) ?cs"
    by (simp add: converts_def as_float_def int_to_float_def)
  have c1: "as_float int_to_float (PyInt 1) = Inr 1
      \<and> as_float int_to_float (PyFloat 2) = Inr 2 \<and> as_float int_to_float (PyFloat 3) = Inr 3"
    by (simp add: as_float_def int_to_float_def)
  from accepted_numbers_never_raise [OF acc, of math_radians "\<lambda>v. ''#''" Map.empty] c1
  have "\<exists>s. run_num int_to_float math_radians (\<lambda>v. ''#'') ?cs (init Map.empty) = Inr s
        \<and> (\<exists>s'. move_cartesian_num int_to_float (\<lambda>v. ''#'') (PyInt 1) (PyFloat 2) (PyFloat 3) s
              = Inr s')"
    by blast
  with acc show ?thesis by blast
qed

text \<open>
  The calls \<open>move_cartesian(x=10**400)\<close>, \<open>move_cartesian(x=1.0, y=10**400)\<close> and
  \<open>rotate_joint("waist", 10**400)\<close> from the initial globals: each raises
  \<open>OverflowError\<close> and appends nothing; the second has already added 1 to \<open>x\<close>.
\<close>

theorem int_beyond_double_raises:
  "move_cartesian_num int_to_float (\<lambda>v. ''#'') (PyInt (10 ^ 400)) (PyFloat 0) (PyFloat 0)
       (init Map.empty)
     = Inl (OverflowError, init Map.empty)
   \<and> move_cartesian_num int_to_float (\<lambda>v. ''#'') (PyFloat 1) (PyInt (10 ^ 400)) (PyFloat 0)
       (init Map.empty)
     = Inl (OverflowError, (init Map.empty)\<lparr>arm_state := [''x'' \<mapsto> 1, ''y'' \<mapsto> 0, ''z'' \<mapsto> 0]\<rparr>)
   \<and> rotate_joint_num int_to_float math_radians (\<lambda>v. ''#'') ''waist'' (PyInt (10 ^ 400))
       (init Map.empty)
     = Inl (OverflowError, init Map.empty)"
proof -
  have "[''y'' \<mapsto> 0, ''z'' \<mapsto> 0, ''x'' \<mapsto> 1] = [''x'' \<mapsto> 1, ''y'' \<mapsto> 0, ''z'' \<mapsto> (0::real)]"
    by (auto simp: fun_eq_iff)
  then show ?thesis
    by (simp add: move_cartesian_num_def iadd_item_num_def getitem_def as_float_def
        int_to_float_def rotate_joint_num_def init_def)
qed

text \<open>
  C10. The line that \<open>control_gripper\<close> appends is \<open>bot.gripper.\<close>, the action as
  given, and \<open>()\<close>, with nothing escaped; the empty action gives the line
  \<open>bot.gripper.()\<close>.
\<close>

theorem gripper_line_is_concatenation:
  "control_gripper action s =
     s\<lparr>json_commands := json_commands s @
          [[(''type'', JStr ''gripper''), (''action'', JStr (lower action))]],
       python_commands := python_commands s @ [''bot.gripper.'' @ action @ ''()'']\<rparr>
   \<and> python_commands (control_gripper [] s) = python_commands s @ [''bot.gripper.()'']
   \<and> (\<forall>c. python_commands (control_gripper [c] s)
          = python_commands s @ [''bot.gripper.'' @ [c] @ ''()''])"
  by (simp add: control_gripper_def)

end
